theory Spec2Isabelle
  imports Complex_Main
begin

section \<open>ProToken / PT-DiT notebook utilities: a shallow embedding\<close>

text \<open>
  The functions below are the pre/post-processing utilities of the PT-DiT example
  notebooks (\<^verbatim>\<open>protoken_emb_distance_fn\<close>, \<^verbatim>\<open>aatype_emb_distance_fn\<close>,
  \<^verbatim>\<open>aatype_index_to_resname\<close>, \<^verbatim>\<open>resname_to_aatype_index\<close>,
  \<^verbatim>\<open>index_from_embedding\<close>, \<^verbatim>\<open>make_repaint_info\<close> and the RePaint blending line of
  \<^verbatim>\<open>run_infer\<close>) and the structure-module blocks of the YAML configuration.

  Arithmetic is over the reals: the rounding, overflow and NaN payloads of float32 are
  outside the model. The one place where IEEE arithmetic leaves the reals on finite
  operands, a division by zero, is a branch of the model (\<open>NonFinite\<close>).
  An array is a list (of lists); the last axis is the innermost list.
\<close>

subsection \<open>Errors\<close>

datatype error =
    IndexError        \<comment> \<open>Python list index out of range\<close>
  | ValueError        \<comment> \<open>\<^verbatim>\<open>list.index\<close> of an absent element, \<^verbatim>\<open>argmin\<close> of an empty axis\<close>
  | ShapeError        \<comment> \<open>operands that do not broadcast\<close>
  | AssertionError    \<comment> \<open>a failed \<^verbatim>\<open>assert\<close>\<close>
  | NonFinite         \<comment> \<open>the result of a division by zero (IEEE inf or NaN)\<close>

text \<open>Running a fallible function over a list stops at the first error.\<close>

fun mapM :: "('a \<Rightarrow> error + 'b) \<Rightarrow> 'a list \<Rightarrow> error + 'b list" where
  "mapM f [] = Inr []"
| "mapM f (x # xs) =
     (case f x of
        Inl e \<Rightarrow> Inl e
      | Inr y \<Rightarrow> (case mapM f xs of Inl e \<Rightarrow> Inl e | Inr ys \<Rightarrow> Inr (y # ys)))"

definition bind_err :: "error + 'a \<Rightarrow> ('a \<Rightarrow> error + 'b) \<Rightarrow> error + 'b" where
  "bind_err m f = (case m of Inl e \<Rightarrow> Inl e | Inr a \<Rightarrow> f a)"

subsection \<open>Residue names\<close>

text \<open>The table \<^verbatim>\<open>restypes\<close>, written out in both conversion functions.\<close>

definition restypes :: "char list" where
  "restypes =
     [CHR ''A'', CHR ''R'', CHR ''N'', CHR ''D'', CHR ''C'', CHR ''Q'', CHR ''E'',
      CHR ''G'', CHR ''H'', CHR ''I'', CHR ''L'', CHR ''K'', CHR ''M'', CHR ''F'',
      CHR ''P'', CHR ''S'', CHR ''T'', CHR ''W'', CHR ''Y'', CHR ''V'']"

text \<open>
  Python's \<^verbatim>\<open>xs[i]\<close> on a list: an index below zero counts from the end, and an index
  outside \<open>-len \<dots> len - 1\<close> raises IndexError.
\<close>

definition py_getitem :: "'a list \<Rightarrow> int \<Rightarrow> error + 'a" where
  "py_getitem xs i =
     (if 0 \<le> i \<and> i < int (length xs) then Inr (xs ! nat i)
      else if i < 0 \<and> - int (length xs) \<le> i then Inr (xs ! nat (int (length xs) + i))
      else Inl IndexError)"

text \<open>Python's \<^verbatim>\<open>xs.index(a)\<close>: the first position of \<open>a\<close>, ValueError when absent.\<close>

fun py_index :: "'a list \<Rightarrow> 'a \<Rightarrow> error + nat" where
  "py_index [] a = Inl ValueError"
| "py_index (x # xs) a =
     (if x = a then Inr 0
      else case py_index xs a of Inl e \<Rightarrow> Inl e | Inr n \<Rightarrow> Inr (Suc n))"

text \<open>
  \<^verbatim>\<open>"".join([restypes[int(i)] for i in aatype_index])\<close>
\<close>

definition aatype_index_to_resname :: "int list \<Rightarrow> error + string" where
  "aatype_index_to_resname aatype_index = mapM (py_getitem restypes) aatype_index"

text \<open>
  \<^verbatim>\<open>np.array([restypes.index(a) for a in resnames], dtype=np.int32)\<close>
\<close>

definition resname_to_aatype_index :: "string \<Rightarrow> error + int list" where
  "resname_to_aatype_index resnames =
     mapM (\<lambda>a. case py_index restypes a of Inl e \<Rightarrow> Inl e | Inr n \<Rightarrow> Inr (int n)) resnames"

subsection \<open>Configuration: the three structure-module blocks\<close>

record sidechain_config =
  sc_num_channel :: nat

record structure_module_config =
  sink_attention :: bool
  stop_grad_ipa :: bool
  single_channel :: nat
  pair_channel :: nat
  num_layer :: nat
  position_scale :: "real option"  \<comment> \<open>absent in \<^verbatim>\<open>frame_initializer\<close>\<close>
  num_channel :: nat
  num_head :: nat
  num_layer_in_transition :: nat
  num_point_qk :: nat
  num_point_v :: nat
  num_scalar_qk :: nat
  num_scalar_v :: nat
  dropout :: real
  sidechain :: sidechain_config

definition extended_structure_module :: structure_module_config where
  "extended_structure_module =
     \<lparr> sink_attention = False, stop_grad_ipa = True, single_channel = 384,
       pair_channel = 128, num_layer = 8, position_scale = Some 10, num_channel = 384,
       num_head = 12, num_layer_in_transition = 3, num_point_qk = 4, num_point_v = 8,
       num_scalar_qk = 16, num_scalar_v = 16, dropout = 5 / 100,
       sidechain = \<lparr> sc_num_channel = 128 \<rparr> \<rparr>"

definition frame_initializer :: structure_module_config where
  "frame_initializer =
     \<lparr> sink_attention = False, stop_grad_ipa = False, single_channel = 384,
       pair_channel = 128, num_layer = 1, position_scale = None, num_channel = 384,
       num_head = 12, num_layer_in_transition = 3, num_point_qk = 4, num_point_v = 8,
       num_scalar_qk = 16, num_scalar_v = 16, dropout = 5 / 100,
       sidechain = \<lparr> sc_num_channel = 128 \<rparr> \<rparr>"

record predicted_lddt_config =
  fold_iteration :: structure_module_config
  lddt_num_channel :: nat
  lddt_num_bins :: nat

definition predicted_lddt :: predicted_lddt_config where
  "predicted_lddt =
     \<lparr> fold_iteration =
         \<lparr> sink_attention = False, stop_grad_ipa = True, single_channel = 384,
           pair_channel = 128, num_layer = 8, position_scale = Some 10, num_channel = 384,
           num_head = 12, num_layer_in_transition = 3, num_point_qk = 4, num_point_v = 8,
           num_scalar_qk = 16, num_scalar_v = 16, dropout = 5 / 100,
           sidechain = \<lparr> sc_num_channel = 128 \<rparr> \<rparr>,
       lddt_num_channel = 128, lddt_num_bins = 50 \<rparr>"

subsection \<open>Arrays and broadcasting\<close>

type_synonym vec = "real list"

text \<open>
  An elementwise binary operation along one axis, with NumPy's broadcasting rule: the
  two lengths are equal, or one of them is 1 and that element is repeated; anything else
  does not broadcast. Nesting \<open>bcast\<close> gives the operation on arrays of rank 2; the
  shape check then runs along the way, row by row.
\<close>

definition bcast :: "('a \<Rightarrow> 'b \<Rightarrow> error + 'c) \<Rightarrow> 'a list \<Rightarrow> 'b list \<Rightarrow> error + 'c list" where
  "bcast f x y =
     (if length x = length y then mapM (\<lambda>(a, b). f a b) (zip x y)
      else if length x = 1 then mapM (f (hd x)) y
      else if length y = 1 then mapM (\<lambda>a. f a (hd y)) x
      else Inl ShapeError)"

definition fmul :: "real \<Rightarrow> real \<Rightarrow> error + real" where
  "fmul a b = Inr (a * b)"

definition fsub :: "real \<Rightarrow> real \<Rightarrow> error + real" where
  "fsub a b = Inr (a - b)"

definition fadd :: "real \<Rightarrow> real \<Rightarrow> error + real" where
  "fadd a b = Inr (a + b)"

text \<open>Division: by zero the IEEE quotient is an infinity or NaN, not a real.\<close>

definition fdiv :: "real \<Rightarrow> real \<Rightarrow> error + real" where
  "fdiv a b = (if b = 0 then Inl NonFinite else Inr (a / b))"

subsection \<open>The two distance functions\<close>

text \<open>The additive constant \<^verbatim>\<open>1e-6\<close>.\<close>

definition eps :: real where
  "eps = 1 / 1000000"

text \<open>
  \<^verbatim>\<open>jnp.linalg.norm(x, axis=-1, keepdims=True)\<close>: the 2-norm along the last axis,
  the square root of the sum of the squares.
\<close>

definition norm_last :: "vec \<Rightarrow> real" where
  "norm_last x = sqrt (sum_list (map (\<lambda>a. a * a) x))"

text \<open>
  \<^verbatim>\<open>x / (jnp.linalg.norm(x, axis=-1, keepdims=True) + 1e-6)\<close>: the norm keeps its
  axis with length 1, so the division broadcasts it over the elements of \<open>x\<close>.
\<close>

definition normalize_eps :: "vec \<Rightarrow> error + vec" where
  "normalize_eps x = bcast fdiv x [norm_last x + eps]"

text \<open>
  \<^verbatim>\<open>
  def protoken_emb_distance_fn(x, y):
      x_ = x / (jnp.linalg.norm(x, axis=-1, keepdims=True) + 1e-6)
      y_ = y / (jnp.linalg.norm(y, axis=-1, keepdims=True) + 1e-6)
      return -jnp.sum(x_ * y_, axis=-1)
  \<close>
  on two arrays of rank 1.
\<close>

definition protoken_emb_distance_fn :: "vec \<Rightarrow> vec \<Rightarrow> error + real" where
  "protoken_emb_distance_fn x y =
     bind_err (normalize_eps x) (\<lambda>x'.
     bind_err (normalize_eps y) (\<lambda>y'.
     bind_err (bcast fmul x' y') (\<lambda>p. Inr (- sum_list p))))"

text \<open>
  \<^verbatim>\<open>
  def aatype_emb_distance_fn(x, y):
      return jnp.sum((x - y) ** 2, axis=-1)
  \<close>
\<close>

definition aatype_emb_distance_fn :: "vec \<Rightarrow> vec \<Rightarrow> error + real" where
  "aatype_emb_distance_fn x y =
     bind_err (bcast fsub x y) (\<lambda>d. Inr (sum_list (map (\<lambda>a. a ^ 2) d)))"

subsection \<open>Nearest-neighbour lookup\<close>

text \<open>
  \<^verbatim>\<open>jnp.argmin\<close> along an axis: the index of the first occurrence of the minimum;
  an axis of length 0 raises ValueError. The scan keeps the best index so far and
  replaces it only by a strictly smaller value.
\<close>

fun argmin_from :: "nat \<Rightarrow> real \<Rightarrow> nat \<Rightarrow> real list \<Rightarrow> nat" where
  "argmin_from best bv i [] = best"
| "argmin_from best bv i (d # ds) =
     (if d < bv then argmin_from i d (Suc i) ds else argmin_from best bv (Suc i) ds)"

definition argmin :: "real list \<Rightarrow> error + nat" where
  "argmin ds = (case ds of [] \<Rightarrow> Inl ValueError | d # ds' \<Rightarrow> Inr (argmin_from 0 d 1 ds'))"

text \<open>
  An embedding table (\<^verbatim>\<open>protoken_emb\<close>, \<^verbatim>\<open>aatype_emb\<close>: loaded from pickle
  files, so parameters here): an array of shape \<open>(length (entries t), emb_dim t)\<close>.
\<close>

record emb_table =
  emb_dim :: nat
  entries :: "vec list"

definition wf_table :: "emb_table \<Rightarrow> bool" where
  "wf_table t = list_all (\<lambda>e. length e = emb_dim t) (entries t)"

text \<open>
  One position of \<^verbatim>\<open>jnp.argmin(distance_fn(v[None, :], emb), axis=-1)\<close>: the distances of
  \<open>v\<close> to every entry, then the arg-min over the entries.
\<close>

definition nearest_index :: "(vec \<Rightarrow> vec \<Rightarrow> error + real) \<Rightarrow> vec list \<Rightarrow> vec \<Rightarrow> error + nat" where
  "nearest_index distance_fn emb v = bind_err (mapM (distance_fn v) emb) argmin"

record indexes =
  protoken_indexes :: "nat list list"
  aatype_indexes :: "nat list list option"

text \<open>
  \<^verbatim>\<open>
  def index_from_embedding(x):
      # x: (B, Nres, Nemb)
      protoken_indexes = \
          jnp.argmin(protoken_emb_distance_fn(x[..., None, :protoken_emb.shape[-1]],
                                              protoken_emb[None, None, ...]), axis=-1)
      ret = {'protoken_indexes': protoken_indexes}
      if bool(infer_protuple):
          aatype_indexes = \
              jnp.argmin(aatype_emb_distance_fn(x[..., None, protoken_emb.shape[-1]:],
                                                  aatype_emb[None, None, ...]), axis=-1)
          ret.update({'aatype_indexes': aatype_indexes})
      return ret
  \<close>
  The globals \<^verbatim>\<open>infer_protuple\<close> (True in the notebooks), \<^verbatim>\<open>protoken_emb\<close> and
  \<^verbatim>\<open>aatype_emb\<close> are parameters. The leading axes only broadcast against length 1, so
  the computation is the one of a single position, at every position of the batch.
\<close>

definition index_from_embedding ::
    "bool \<Rightarrow> emb_table \<Rightarrow> emb_table \<Rightarrow> vec list list \<Rightarrow> error + indexes" where
  "index_from_embedding infer_protuple protoken_emb aatype_emb x =
     bind_err
       (mapM (mapM (\<lambda>v. nearest_index protoken_emb_distance_fn (entries protoken_emb)
                          (take (emb_dim protoken_emb) v))) x)
       (\<lambda>p.
          if infer_protuple then
            bind_err
              (mapM (mapM (\<lambda>v. nearest_index aatype_emb_distance_fn (entries aatype_emb)
                                 (drop (emb_dim protoken_emb) v))) x)
              (\<lambda>a. Inr \<lparr> protoken_indexes = p, aatype_indexes = Some a \<rparr>)
          else Inr \<lparr> protoken_indexes = p, aatype_indexes = None \<rparr>)"

subsection \<open>Specification predicates\<close>

text \<open>
  \<open>k\<close> is the position of the first minimum of \<open>ds\<close>: no entry is smaller, and every
  entry before it is strictly larger.
\<close>

definition is_first_min :: "real list \<Rightarrow> nat \<Rightarrow> bool" where
  "is_first_min ds k \<longleftrightarrow>
     k < length ds \<and> (\<forall>j < length ds. ds ! k \<le> ds ! j) \<and> (\<forall>j < k. ds ! k < ds ! j)"

text \<open>The two-entry codebook of the specification's scenario: \<open>[1,0]\<close> and \<open>[-1,0]\<close>.\<close>

definition codebook2 :: emb_table where
  "codebook2 = \<lparr> emb_dim = 2, entries = [[1, 0], [-1, 0]] \<rparr>"

text \<open>
  \<open>k\<close> is a nearest entry of the table to \<open>v\<close>, the lowest such index: every distance
  is a number, no entry is nearer than entry \<open>k\<close>, and every entry before \<open>k\<close> is
  strictly farther.
\<close>

definition is_nearest :: "(vec \<Rightarrow> vec \<Rightarrow> error + real) \<Rightarrow> vec list \<Rightarrow> vec \<Rightarrow> nat \<Rightarrow> bool" where
  "is_nearest distance_fn emb v k \<longleftrightarrow>
     k < length emb \<and>
     (\<forall>j \<in> {..<length emb}.
        case (distance_fn v (emb ! k), distance_fn v (emb ! j)) of
          (Inr dk, Inr dj) \<Rightarrow> dk \<le> dj \<and> (j < k \<longrightarrow> dk < dj)
        | _ \<Rightarrow> False)"

subsection \<open>RePaint: context and mask\<close>

text \<open>
  \<^verbatim>\<open>protoken_emb[k]\<close> on a JAX array, along the first axis: an index below zero counts
  from the end, and an index that is then still out of bounds is clamped into the array
  (JAX's rule for reading); only an axis of length 0 raises IndexError.
\<close>

definition jnp_getitem :: "emb_table \<Rightarrow> int \<Rightarrow> error + vec" where
  "jnp_getitem t k =
     (let n = int (length (entries t));
          j = (if k < 0 then k + n else k)
      in if n = 0 then Inl IndexError
         else Inr (entries t ! nat (max 0 (min (n - 1) j))))"

text \<open>
  \<^verbatim>\<open>
  def make_repaint_info(aatypes, protokens, aatype_context_ids, protoken_context_ids):
      protoken_context = protoken_emb[protokens]
      aatype_context = aatype_emb[aatypes]
      assert len(protoken_context) == len(aatype_context), 'seq_len mismatch: ...'
      seq_len = len(protoken_context)

      repaint_context = np.concatenate([protoken_context, aatype_context], axis=-1)
      repaint_mask_aa = np.array([[0,]*DIM_EMB_PTK+[1,]*DIM_EMB_AA if i in aatype_context_ids \
                                    else [0,]*DIM_EMB for i in range(seq_len)],
                                  dtype=np.bool_)
      repaint_mask_ptk = np.array([[1,]*DIM_EMB_PTK+[0,]*DIM_EMB_AA if i in protoken_context_ids \
                                    else [0,]*DIM_EMB for i in range(seq_len)],
                                  dtype=np.bool_)

      return repaint_context, np.logical_or(repaint_mask_aa, repaint_mask_ptk)
  \<close>
  with \<^verbatim>\<open>DIM_EMB_PTK = protoken_emb.shape[-1]\<close>, \<^verbatim>\<open>DIM_EMB_AA = aatype_emb.shape[-1]\<close>
  and \<^verbatim>\<open>DIM_EMB = DIM_EMB_PTK + DIM_EMB_AA\<close>.
\<close>

definition make_repaint_info ::
    "emb_table \<Rightarrow> emb_table \<Rightarrow> int list \<Rightarrow> int list \<Rightarrow> int list \<Rightarrow> int list
       \<Rightarrow> error + (vec list \<times> bool list list)" where
  "make_repaint_info protoken_emb aatype_emb aatypes protokens aatype_context_ids
       protoken_context_ids =
     bind_err (mapM (jnp_getitem protoken_emb) protokens) (\<lambda>protoken_context.
     bind_err (mapM (jnp_getitem aatype_emb) aatypes) (\<lambda>aatype_context.
       if length protoken_context \<noteq> length aatype_context then Inl AssertionError
       else
         let DIM_EMB_PTK = emb_dim protoken_emb;
             DIM_EMB_AA = emb_dim aatype_emb;
             DIM_EMB = DIM_EMB_PTK + DIM_EMB_AA;
             seq_len = length protoken_context;
             repaint_context = map2 (@) protoken_context aatype_context;
             repaint_mask_aa =
               map (\<lambda>i. if int i \<in> set aatype_context_ids
                          then replicate DIM_EMB_PTK False @ replicate DIM_EMB_AA True
                          else replicate DIM_EMB False) [0..<seq_len];
             repaint_mask_ptk =
               map (\<lambda>i. if int i \<in> set protoken_context_ids
                          then replicate DIM_EMB_PTK True @ replicate DIM_EMB_AA False
                          else replicate DIM_EMB False) [0..<seq_len]
         in Inr (repaint_context, map2 (map2 (\<or>)) repaint_mask_aa repaint_mask_ptk)))"

text \<open>\<^verbatim>\<open>repaint_mask.astype(np.float32)\<close>: False is 0 and True is 1.\<close>

definition astype_float32 :: "bool list list \<Rightarrow> real list list" where
  "astype_float32 m = map (map (\<lambda>b. if b then 1 else 0)) m"

text \<open>
  The blending line of \<^verbatim>\<open>run_infer\<close>, on the arrays of one sample (rank 2):
  \<^verbatim>\<open>x = repaint_mask_ * repaint_context_t + (1 - repaint_mask_) * x\<close>.
  \<^verbatim>\<open>repaint_context_t\<close> is the context after \<^verbatim>\<open>pjit_q_sample\<close> has added noise to
  it: any array of the context's shape.
\<close>

definition repaint_blend :: "real list list \<Rightarrow> vec list \<Rightarrow> vec list \<Rightarrow> error + vec list" where
  "repaint_blend repaint_mask repaint_context_t x =
     bind_err (bcast (bcast fmul) repaint_mask repaint_context_t) (\<lambda>kept.
     bind_err (bcast (bcast fmul) (map (map (\<lambda>m. 1 - m)) repaint_mask) x) (\<lambda>free.
       bcast (bcast fadd) kept free))"

section \<open>Properties\<close>

subsection \<open>Lists of fallible results\<close>

lemma mapM_Inr_length: "mapM f xs = Inr ys \<Longrightarrow> length ys = length xs"
  by (induction xs arbitrary: ys) (auto split: sum.splits)

lemma mapM_Inr_nth:
  "mapM f xs = Inr ys \<Longrightarrow> i < length xs \<Longrightarrow> f (xs ! i) = Inr (ys ! i)"
proof (induction xs arbitrary: ys i)
  case Nil
  then show ?case by simp
next
  case (Cons x xs)
  then show ?case by (cases i) (auto split: sum.splits)
qed

lemma mapM_all_Inr:
  "(\<And>x. x \<in> set xs \<Longrightarrow> f x = Inr (g x)) \<Longrightarrow> mapM f xs = Inr (map g xs)"
  by (induction xs) auto

lemma mapM_total_on:
  "(\<And>x. x \<in> set xs \<Longrightarrow> \<exists>y. f x = Inr y) \<Longrightarrow> \<exists>ys. mapM f xs = Inr ys"
proof (induction xs)
  case Nil
  then show ?case by simp
next
  case (Cons x xs)
  from Cons.prems obtain y where "f x = Inr y" by auto
  moreover from Cons obtain ys where "mapM f xs = Inr ys" by auto
  ultimately show ?case by simp
qed

lemma mapM_total:
  "(\<And>x. \<exists>y. f x = Inr y) \<Longrightarrow> \<exists>ys. mapM f xs = Inr ys"
proof (induction xs)
  case Nil
  then show ?case by simp
next
  case (Cons x xs)
  from Cons.prems obtain y where "f x = Inr y" by blast
  moreover from Cons obtain ys where "mapM f xs = Inr ys" by blast
  ultimately show ?case by simp
qed

lemma mapM_Inl_uniform:
  assumes "x \<in> set xs" and "f x = Inl e" and "\<And>y e'. f y = Inl e' \<Longrightarrow> e' = e"
  shows "mapM f xs = Inl e"
  using assms(1,2)
proof (induction xs)
  case Nil
  then show ?case by simp
next
  case (Cons a xs)
  show ?case
  proof (cases "f a")
    case (Inl e')
    with assms(3) show ?thesis by simp
  next
    case (Inr b)
    with Cons have "mapM f xs = Inl e" by auto
    with Inr show ?thesis by simp
  qed
qed

lemma mapM_mapM_nth:
  assumes "mapM (mapM f) x = Inr p" and "b < length x" and "i < length (x ! b)"
  shows "f (x ! b ! i) = Inr (p ! b ! i)"
proof -
  from assms(1,2) have "mapM f (x ! b) = Inr (p ! b)" by (rule mapM_Inr_nth)
  then show ?thesis using assms(3) by (rule mapM_Inr_nth)
qed

lemma mapM_mapM_length:
  assumes "mapM (mapM f) x = Inr p"
  shows "length p = length x" and "b < length x \<Longrightarrow> length (p ! b) = length (x ! b)"
proof -
  show "length p = length x" using assms by (rule mapM_Inr_length)
  assume "b < length x"
  with assms have "mapM f (x ! b) = Inr (p ! b)" by (rule mapM_Inr_nth)
  then show "length (p ! b) = length (x ! b)" by (rule mapM_Inr_length)
qed

lemma mapM_mapM_total:
  assumes "\<And>row v. row \<in> set x \<Longrightarrow> v \<in> set row \<Longrightarrow> \<exists>k. f v = Inr k"
  shows "\<exists>p. mapM (mapM f) x = Inr p"
proof (rule mapM_total_on)
  fix row assume "row \<in> set x"
  then show "\<exists>ys. mapM f row = Inr ys"
    using assms by (intro mapM_total_on) auto
qed

subsection \<open>The residue table\<close>

lemma length_restypes: "length restypes = 20"
  by (simp add: restypes_def)

lemma distinct_restypes: "distinct restypes"
  by (simp add: restypes_def)

lemma py_index_nth:
  "distinct xs \<Longrightarrow> n < length xs \<Longrightarrow> py_index xs (xs ! n) = Inr n"
proof (induction xs arbitrary: n)
  case Nil
  then show ?case by simp
next
  case (Cons x xs)
  show ?case
  proof (cases n)
    case 0
    then show ?thesis by simp
  next
    case (Suc m)
    with Cons.prems have "m < length xs" "distinct xs" "x \<noteq> xs ! m"
      by auto
    with Cons.IH [of m] Suc show ?thesis by simp
  qed
qed

lemma py_index_mem:
  "a \<in> set xs \<Longrightarrow> \<exists>n. py_index xs a = Inr n \<and> n < length xs \<and> xs ! n = a"
  by (induction xs) auto

lemma py_getitem_in_range:
  "0 \<le> i \<Longrightarrow> i < int (length xs) \<Longrightarrow> py_getitem xs i = Inr (xs ! nat i)"
  by (simp add: py_getitem_def)

lemma py_getitem_too_large:
  "int (length xs) \<le> i \<Longrightarrow> py_getitem xs i = Inl IndexError"
  by (simp add: py_getitem_def)

subsection \<open>Broadcasting and the distances\<close>

lemma bcast_same_length:
  "length x = length y \<Longrightarrow> (\<And>a b. f a b = Inr (g a b)) \<Longrightarrow>
     bcast f x y = Inr (map2 g x y)"
proof -
  assume len: "length x = length y" and f: "\<And>a b. f a b = Inr (g a b)"
  have "mapM (\<lambda>(a, b). f a b) (zip x y) = Inr (map (\<lambda>(a, b). g a b) (zip x y))"
    by (rule mapM_all_Inr) (auto simp: f)
  with len show ?thesis by (simp add: bcast_def)
qed

lemma bcast_total_cases:
  assumes "\<And>a b. \<exists>c. f a b = Inr c"
  shows "(\<exists>zs. bcast f x y = Inr zs) \<or> (bcast f x y = Inl ShapeError \<and> length x \<noteq> length y \<and> length x \<noteq> 1 \<and> length y \<noteq> 1)"
proof -
  have 1: "\<exists>zs. mapM (\<lambda>(a, b). f a b) (zip x y) = Inr zs"
    by (rule mapM_total) (use assms in auto)
  have 2: "\<exists>zs. mapM (f (hd x)) y = Inr zs"
    by (rule mapM_total) (use assms in auto)
  have 3: "\<exists>zs. mapM (\<lambda>a. f a (hd y)) x = Inr zs"
    by (rule mapM_total) (use assms in auto)
  from 1 2 3 show ?thesis by (auto simp: bcast_def)
qed

lemma bcast2_same_shape:
  assumes "list_all2 (\<lambda>a b. length a = length b) m c" and "\<And>a b. f a b = Inr (g a b)"
  shows "bcast (bcast f) m c = Inr (map2 (map2 g) m c)"
proof -
  from assms(1) have len: "length m = length c" by (rule list_all2_lengthD)
  have "mapM (\<lambda>(a, b). bcast f a b) (zip m c) = Inr (map (\<lambda>(a, b). map2 g a b) (zip m c))"
  proof (rule mapM_all_Inr)
    fix p assume p: "p \<in> set (zip m c)"
    obtain a b where ab: "p = (a, b)" by (cases p)
    with p assms(1) have "length a = length b" by (auto simp: list_all2_iff)
    then have "bcast f a b = Inr (map2 g a b)" using assms(2) by (rule bcast_same_length)
    with ab show "(case p of (a, b) \<Rightarrow> bcast f a b) = Inr (case p of (a, b) \<Rightarrow> map2 g a b)"
      by simp
  qed
  with len show ?thesis by (simp add: bcast_def [of "bcast f"])
qed

lemma sum_squares_nonneg: "0 \<le> sum_list (map (\<lambda>a. a * a) (x :: real list))"
  by (induction x) auto

lemma norm_last_nonneg: "0 \<le> norm_last x"
  by (simp add: norm_last_def sum_squares_nonneg)

lemma norm_eps_pos: "0 < norm_last x + eps"
  using norm_last_nonneg [of x] by (simp add: eps_def)

lemma normalize_eps_eq:
  "normalize_eps x = Inr (map (\<lambda>a. a / (norm_last x + eps)) x)"
proof -
  let ?s = "norm_last x + eps"
  have nz: "?s \<noteq> 0" using norm_eps_pos [of x] by simp
  have div: "\<And>a. fdiv a ?s = Inr (a / ?s)" using nz by (simp add: fdiv_def)
  show ?thesis
  proof (cases "length x = 1")
    case True
    then obtain a where xa: "x = [a]" by (cases x) auto
    show ?thesis using div [of a] by (simp add: normalize_eps_def bcast_def xa)
  next
    case False
    have "mapM (\<lambda>a. fdiv a ?s) x = Inr (map (\<lambda>a. a / ?s) x)"
      by (rule mapM_all_Inr) (simp add: div)
    with False show ?thesis by (simp add: normalize_eps_def bcast_def)
  qed
qed

lemma protoken_emb_distance_fn_eq:
  assumes "length x = length y"
  shows "protoken_emb_distance_fn x y =
    Inr (- sum_list (map2 (*) (map (\<lambda>a. a / (norm_last x + eps)) x)
                              (map (\<lambda>b. b / (norm_last y + eps)) y)))"
proof -
  have "bcast fmul (map (\<lambda>a. a / (norm_last x + eps)) x) (map (\<lambda>b. b / (norm_last y + eps)) y)
      = Inr (map2 (*) (map (\<lambda>a. a / (norm_last x + eps)) x) (map (\<lambda>b. b / (norm_last y + eps)) y))"
    by (rule bcast_same_length) (simp_all add: assms fmul_def)
  then show ?thesis
    by (simp add: protoken_emb_distance_fn_def normalize_eps_eq bind_err_def)
qed

lemma aatype_emb_distance_fn_eq:
  assumes "length x = length y"
  shows "aatype_emb_distance_fn x y = Inr (sum_list (map (\<lambda>a. a ^ 2) (map2 (-) x y)))"
proof -
  have "bcast fsub x y = Inr (map2 (-) x y)"
    by (rule bcast_same_length) (simp_all add: assms fsub_def)
  then show ?thesis
    by (simp add: aatype_emb_distance_fn_def bind_err_def)
qed

lemma sum_list_mult_zeros:
  "sum_list (map2 (*) (replicate (length ys) (0::real)) ys) = 0"
  by (induction ys) simp_all

lemma protoken_distance_2d:
  "protoken_emb_distance_fn [p, q] [r, s] =
     Inr (- (p * r + q * s) / ((norm_last [p, q] + eps) * (norm_last [r, s] + eps)))"
  by (simp add: protoken_emb_distance_fn_eq add_divide_distrib diff_divide_distrib)

subsection \<open>The arg-min and the nearest entry\<close>

lemma argmin_from_first_min:
  "is_first_min pre best \<Longrightarrow> bv = pre ! best \<Longrightarrow> i = length pre \<Longrightarrow>
     is_first_min (pre @ ds) (argmin_from best bv i ds)"
proof (induction ds arbitrary: pre best bv i)
  case Nil
  then show ?case by simp
next
  case (Cons d ds)
  show ?case
  proof (cases "d < bv")
    case True
    have "is_first_min (pre @ [d]) i"
      using Cons.prems True
      by (auto simp: is_first_min_def nth_append less_Suc_eq intro: less_le_trans le_less_trans less_imp_le)
    from Cons.IH [OF this, of d "Suc i"] Cons.prems True show ?thesis
      by simp
  next
    case False
    have "is_first_min (pre @ [d]) best"
      using Cons.prems False
      by (auto simp: is_first_min_def nth_append less_Suc_eq)
    from Cons.IH [OF this, of bv "Suc i"] Cons.prems False show ?thesis
      by (simp add: nth_append is_first_min_def)
  qed
qed

lemma argmin_first_min: "argmin ds = Inr k \<Longrightarrow> is_first_min ds k"
proof (cases ds)
  case Nil
  assume "argmin ds = Inr k"
  with Nil show ?thesis by (simp add: argmin_def)
next
  case (Cons d ds')
  assume "argmin ds = Inr k"
  with Cons have k: "k = argmin_from 0 d 1 ds'" by (simp add: argmin_def)
  have "is_first_min [d] 0" by (simp add: is_first_min_def)
  from argmin_from_first_min [OF this, of d 1 ds'] k Cons show ?thesis by simp
qed

lemma argmin_nonempty: "ds \<noteq> [] \<Longrightarrow> \<exists>k. argmin ds = Inr k"
  by (cases ds) (simp_all add: argmin_def)

lemma nearest_index_is_nearest:
  assumes "nearest_index distance_fn emb v = Inr k"
  shows "is_nearest distance_fn emb v k"
proof -
  from assms obtain ds where ds: "mapM (distance_fn v) emb = Inr ds" and k: "argmin ds = Inr k"
    by (auto simp: nearest_index_def bind_err_def split: sum.splits)
  from ds have len: "length ds = length emb" by (rule mapM_Inr_length)
  from k have fm: "is_first_min ds k" by (rule argmin_first_min)
  have at: "\<And>j. j < length emb \<Longrightarrow> distance_fn v (emb ! j) = Inr (ds ! j)"
    using ds by (rule mapM_Inr_nth)
  from fm len have klt: "k < length emb" by (simp add: is_first_min_def)
  show ?thesis
    unfolding is_nearest_def
  proof (intro conjI ballI)
    show "k < length emb" by (rule klt)
  next
    fix j assume "j \<in> {..<length emb}"
    then have j: "j < length emb" by simp
    from fm j len have "ds ! k \<le> ds ! j \<and> (j < k \<longrightarrow> ds ! k < ds ! j)"
      by (simp add: is_first_min_def)
    then show "case (distance_fn v (emb ! k), distance_fn v (emb ! j)) of
          (Inr dk, Inr dj) \<Rightarrow> dk \<le> dj \<and> (j < k \<longrightarrow> dk < dj)
        | _ \<Rightarrow> False"
      by (simp add: at [OF klt] at [OF j])
  qed
qed

lemma nearest_index_total:
  assumes "emb \<noteq> []" and "\<And>e. e \<in> set emb \<Longrightarrow> \<exists>d. distance_fn v e = Inr d"
  shows "\<exists>k. nearest_index distance_fn emb v = Inr k"
proof -
  from assms(2) obtain ds where ds: "mapM (distance_fn v) emb = Inr ds"
    using mapM_total_on [of emb "distance_fn v"] by auto
  then have "length ds = length emb" by (rule mapM_Inr_length)
  with assms(1) have "ds \<noteq> []" by auto
  then obtain k where "argmin ds = Inr k" using argmin_nonempty by blast
  with ds show ?thesis by (simp add: nearest_index_def bind_err_def)
qed

lemma protoken_index_total:
  assumes "wf_table t" and "entries t \<noteq> []" and "emb_dim t \<le> length v"
  shows "\<exists>k. nearest_index protoken_emb_distance_fn (entries t) (take (emb_dim t) v) = Inr k"
proof (rule nearest_index_total)
  show "entries t \<noteq> []" by fact
next
  fix e assume "e \<in> set (entries t)"
  with assms(1) have "length e = emb_dim t" by (simp add: wf_table_def list_all_iff)
  with assms(3) have "length (take (emb_dim t) v) = length e" by simp
  then show "\<exists>d. protoken_emb_distance_fn (take (emb_dim t) v) e = Inr d"
    by (simp add: protoken_emb_distance_fn_eq)
qed

lemma aatype_index_total:
  assumes "wf_table t" and "entries t \<noteq> []" and "length v = n + emb_dim t"
  shows "\<exists>k. nearest_index aatype_emb_distance_fn (entries t) (drop n v) = Inr k"
proof (rule nearest_index_total)
  show "entries t \<noteq> []" by fact
next
  fix e assume "e \<in> set (entries t)"
  with assms(1) have "length e = emb_dim t" by (simp add: wf_table_def list_all_iff)
  with assms(3) have "length (drop n v) = length e" by simp
  then show "\<exists>d. aatype_emb_distance_fn (drop n v) e = Inr d"
    by (simp add: aatype_emb_distance_fn_eq)
qed

lemma nearest_codebook2:
  assumes "0 < p"
  shows "nearest_index protoken_emb_distance_fn (entries codebook2) [p, q] = Inr 0"
    and "nearest_index protoken_emb_distance_fn (entries codebook2) [- p, q] = Inr 1"
proof -
  have b: "0 < norm_last [1, 0] + eps" "0 < norm_last [-1, 0] + eps"
    by (rule norm_eps_pos)+
  have a: "0 < norm_last [p, q] + eps" "0 < norm_last [- p, q] + eps"
    by (rule norm_eps_pos)+
  have neg: "- p / ((norm_last [p, q] + eps) * (norm_last [1, 0] + eps)) < 0"
    using a b assms by (simp add: divide_neg_pos)
  have pos: "0 < p / ((norm_last [p, q] + eps) * (norm_last [-1, 0] + eps))"
    using a b assms by simp
  have neg2: "- p / ((norm_last [- p, q] + eps) * (norm_last [-1, 0] + eps)) < 0"
    using a b assms by (simp add: divide_neg_pos)
  have pos2: "0 < p / ((norm_last [- p, q] + eps) * (norm_last [1, 0] + eps))"
    using a b assms by simp
  show "nearest_index protoken_emb_distance_fn (entries codebook2) [p, q] = Inr 0"
    using neg pos
    by (simp add: nearest_index_def codebook2_def protoken_distance_2d bind_err_def argmin_def)
  show "nearest_index protoken_emb_distance_fn (entries codebook2) [- p, q] = Inr 1"
    using neg2 pos2
    by (simp add: nearest_index_def codebook2_def protoken_distance_2d bind_err_def argmin_def)
qed

lemma index_from_embedding_total:
  assumes "wf_table protoken_emb" and "entries protoken_emb \<noteq> []"
    and "wf_table aatype_emb" and "entries aatype_emb \<noteq> []"
    and "\<forall>row \<in> set x. \<forall>v \<in> set row. length v = emb_dim protoken_emb + emb_dim aatype_emb"
  shows "\<exists>p a. index_from_embedding True protoken_emb aatype_emb x
           = Inr \<lparr> protoken_indexes = p, aatype_indexes = Some a \<rparr>"
proof -
  have "\<exists>p. mapM (mapM (\<lambda>v. nearest_index protoken_emb_distance_fn (entries protoken_emb)
                          (take (emb_dim protoken_emb) v))) x = Inr p"
    using assms by (intro mapM_mapM_total protoken_index_total) auto
  moreover have "\<exists>a. mapM (mapM (\<lambda>v. nearest_index aatype_emb_distance_fn (entries aatype_emb)
                                 (drop (emb_dim protoken_emb) v))) x = Inr a"
    using assms by (intro mapM_mapM_total aatype_index_total) auto
  ultimately show ?thesis
    by (auto simp: index_from_embedding_def bind_err_def)
qed

lemma index_from_embedding_Inr:
  assumes "index_from_embedding True protoken_emb aatype_emb x
           = Inr \<lparr> protoken_indexes = p, aatype_indexes = Some a \<rparr>"
  shows "mapM (mapM (\<lambda>v. nearest_index protoken_emb_distance_fn (entries protoken_emb)
                          (take (emb_dim protoken_emb) v))) x = Inr p"
    and "mapM (mapM (\<lambda>v. nearest_index aatype_emb_distance_fn (entries aatype_emb)
                                 (drop (emb_dim protoken_emb) v))) x = Inr a"
  using assms by (auto simp: index_from_embedding_def bind_err_def split: sum.splits)

subsection \<open>The RePaint mask and the blending step\<close>

lemma repaint_blend_same_shape:
  assumes "list_all2 (\<lambda>a b. length a = length b) m c"
    and "list_all2 (\<lambda>a b. length a = length b) m x"
  shows "repaint_blend m c x =
     Inr (map2 (map2 (+)) (map2 (map2 (*)) m c) (map2 (map2 (*)) (map (map (\<lambda>m. 1 - m)) m) x))"
proof -
  have 1: "bcast (bcast fmul) m c = Inr (map2 (map2 (*)) m c)"
    using assms(1) by (rule bcast2_same_shape) (simp add: fmul_def)
  have "list_all2 (\<lambda>a b. length a = length b) (map (map (\<lambda>m. 1 - m)) m) x"
    using assms(2) by (simp add: list_all2_conv_all_nth)
  then have 2: "bcast (bcast fmul) (map (map (\<lambda>m. 1 - m)) m) x
      = Inr (map2 (map2 (*)) (map (map (\<lambda>m. 1 - m)) m) x)"
    by (rule bcast2_same_shape) (simp add: fmul_def)
  have "list_all2 (\<lambda>a b. length a = length b) (map2 (map2 (*)) m c)
      (map2 (map2 (*)) (map (map (\<lambda>m. 1 - m)) m) x)"
    using assms by (auto simp: list_all2_conv_all_nth)
  then have 3: "bcast (bcast fadd) (map2 (map2 (*)) m c)
      (map2 (map2 (*)) (map (map (\<lambda>m. 1 - m)) m) x)
    = Inr (map2 (map2 (+)) (map2 (map2 (*)) m c) (map2 (map2 (*)) (map (map (\<lambda>m. 1 - m)) m) x))"
    by (rule bcast2_same_shape) (simp add: fadd_def)
  from 1 2 3 show ?thesis by (simp add: repaint_blend_def bind_err_def)
qed

lemma repaint_blend_nth:
  assumes "list_all2 (\<lambda>a b. length a = length b) repaint_mask c"
    and "list_all2 (\<lambda>a b. length a = length b) repaint_mask x"
  shows "\<exists>x'. repaint_blend (astype_float32 repaint_mask) c x = Inr x' \<and> length x' = length x
     \<and> (\<forall>i < length x. length (x' ! i) = length (x ! i)
          \<and> (\<forall>j < length (x ! i). x' ! i ! j = (if repaint_mask ! i ! j then c ! i ! j else x ! i ! j)))"
proof -
  let ?m = "astype_float32 repaint_mask"
  have s1: "list_all2 (\<lambda>a b. length a = length b) ?m c"
    using assms(1) by (simp add: list_all2_conv_all_nth astype_float32_def)
  have s2: "list_all2 (\<lambda>a b. length a = length b) ?m x"
    using assms(2) by (simp add: list_all2_conv_all_nth astype_float32_def)
  let ?x' = "map2 (map2 (+)) (map2 (map2 (*)) ?m c) (map2 (map2 (*)) (map (map (\<lambda>m. 1 - m)) ?m) x)"
  have r: "repaint_blend ?m c x = Inr ?x'" using s1 s2 by (rule repaint_blend_same_shape)
  have l: "length ?x' = length x"
    using assms by (auto simp: list_all2_conv_all_nth astype_float32_def)
  have "\<forall>i < length x. length (?x' ! i) = length (x ! i)
          \<and> (\<forall>j < length (x ! i). ?x' ! i ! j = (if repaint_mask ! i ! j then c ! i ! j else x ! i ! j))"
    using assms by (auto simp: list_all2_conv_all_nth astype_float32_def)
  with r l show ?thesis by blast
qed

lemma jnp_getitem_total: "entries t \<noteq> [] \<Longrightarrow> \<exists>v. jnp_getitem t k = Inr v"
  by (simp add: jnp_getitem_def Let_def)

lemma mask_row_length:
  "length (map2 (\<or>)
     (if ia then replicate P False @ replicate A True else replicate (P + A) False)
     (if ip then replicate P True @ replicate A False else replicate (P + A) False)) = P + A"
  by simp

lemma mask_row_nth:
  assumes "j < P + A"
  shows "map2 (\<or>)
     (if ia then replicate P False @ replicate A True else replicate (P + A) False)
     (if ip then replicate P True @ replicate A False else replicate (P + A) False) ! j
     \<longleftrightarrow> (j < P \<and> ip) \<or> (P \<le> j \<and> ia)"
  using assms by (auto simp: nth_append)

lemma mask_row_all_False:
  "map2 (\<or>) (replicate n False) (replicate n False) = replicate n False"
  by (induction n) simp_all

lemma make_repaint_info_Inr:
  assumes "entries protoken_emb \<noteq> []" and "entries aatype_emb \<noteq> []"
    and "length aatypes = length protokens"
  shows "\<exists>repaint_context.
     make_repaint_info protoken_emb aatype_emb aatypes protokens aatype_context_ids
         protoken_context_ids
     = Inr (repaint_context,
         map (\<lambda>i. map2 (\<or>)
               (if int i \<in> set aatype_context_ids
                then replicate (emb_dim protoken_emb) False @ replicate (emb_dim aatype_emb) True
                else replicate (emb_dim protoken_emb + emb_dim aatype_emb) False)
               (if int i \<in> set protoken_context_ids
                then replicate (emb_dim protoken_emb) True @ replicate (emb_dim aatype_emb) False
                else replicate (emb_dim protoken_emb + emb_dim aatype_emb) False))
           [0..<length protokens])"
proof -
  obtain pc where pc: "mapM (jnp_getitem protoken_emb) protokens = Inr pc"
    using mapM_total_on [of protokens "jnp_getitem protoken_emb"]
      jnp_getitem_total [OF assms(1)] by blast
  obtain ac where ac: "mapM (jnp_getitem aatype_emb) aatypes = Inr ac"
    using mapM_total_on [of aatypes "jnp_getitem aatype_emb"]
      jnp_getitem_total [OF assms(2)] by blast
  from pc have lp: "length pc = length protokens" by (rule mapM_Inr_length)
  from ac have la: "length ac = length aatypes" by (rule mapM_Inr_length)
  show ?thesis
    using pc ac lp la assms(3)
    by (simp add: make_repaint_info_def bind_err_def Let_def zip_map_map zip_same_conv_map)
qed

subsection \<open>Claims\<close>

text \<open>
  C1: for embedding tables of shapes \<open>(K, D)\<close> and \<open>(K', D')\<close> with \<open>K, K' > 0\<close> and
  a batch of vectors of length \<open>D + D'\<close>, \<^verbatim>\<open>index_from_embedding\<close> returns, and at
  each position the ProToken index is the index of a table entry that minimises
  \<^verbatim>\<open>protoken_emb_distance_fn\<close> to the first \<open>D\<close> coordinates, the amino-acid index
  one that minimises \<^verbatim>\<open>aatype_emb_distance_fn\<close> to the remaining coordinates; among
  several entries at the minimum distance the lowest index is returned. The result is a
  function of the input and the tables alone.
\<close>

theorem index_from_embedding_nearest:
  assumes "wf_table protoken_emb" and "entries protoken_emb \<noteq> []"
    and "wf_table aatype_emb" and "entries aatype_emb \<noteq> []"
    and "\<forall>row \<in> set x. \<forall>v \<in> set row. length v = emb_dim protoken_emb + emb_dim aatype_emb"
  shows "\<exists>p a. index_from_embedding True protoken_emb aatype_emb x
            = Inr \<lparr> protoken_indexes = p, aatype_indexes = Some a \<rparr>
         \<and> length p = length x \<and> length a = length x
         \<and> (\<forall>b < length x. length (p ! b) = length (x ! b) \<and> length (a ! b) = length (x ! b)
              \<and> (\<forall>i < length (x ! b).
                    is_nearest protoken_emb_distance_fn (entries protoken_emb)
                      (take (emb_dim protoken_emb) (x ! b ! i)) (p ! b ! i)
                  \<and> is_nearest aatype_emb_distance_fn (entries aatype_emb)
                      (drop (emb_dim protoken_emb) (x ! b ! i)) (a ! b ! i)))"
proof -
  from index_from_embedding_total [OF assms] obtain p a where
    r: "index_from_embedding True protoken_emb aatype_emb x
           = Inr \<lparr> protoken_indexes = p, aatype_indexes = Some a \<rparr>"
    by blast
  note pm = index_from_embedding_Inr(1) [OF r] and am = index_from_embedding_Inr(2) [OF r]
  have "length p = length x" using pm by (rule mapM_mapM_length(1))
  moreover have "length a = length x" using am by (rule mapM_mapM_length(1))
  moreover have "\<forall>b < length x. length (p ! b) = length (x ! b) \<and> length (a ! b) = length (x ! b)
              \<and> (\<forall>i < length (x ! b).
                    is_nearest protoken_emb_distance_fn (entries protoken_emb)
                      (take (emb_dim protoken_emb) (x ! b ! i)) (p ! b ! i)
                  \<and> is_nearest aatype_emb_distance_fn (entries aatype_emb)
                      (drop (emb_dim protoken_emb) (x ! b ! i)) (a ! b ! i))"
  proof (intro allI impI conjI)
    fix b assume b: "b < length x"
    show "length (p ! b) = length (x ! b)" using pm b by (rule mapM_mapM_length(2))
    show "length (a ! b) = length (x ! b)" using am b by (rule mapM_mapM_length(2))
    fix i assume i: "i < length (x ! b)"
    show "is_nearest protoken_emb_distance_fn (entries protoken_emb)
            (take (emb_dim protoken_emb) (x ! b ! i)) (p ! b ! i)"
      using mapM_mapM_nth [OF pm b i] by (rule nearest_index_is_nearest)
    show "is_nearest aatype_emb_distance_fn (entries aatype_emb)
            (drop (emb_dim protoken_emb) (x ! b ! i)) (a ! b ! i)"
      using mapM_mapM_nth [OF am b i] by (rule nearest_index_is_nearest)
  qed
  ultimately show ?thesis using r by blast
qed

theorem index_from_embedding_nearest_witness:
  "\<exists>p a. index_from_embedding True \<lparr> emb_dim = 2, entries = [[1, 0], [-1, 0]] \<rparr>
            \<lparr> emb_dim = 1, entries = [[0], [1]] \<rparr> [[[9 / 10, 1 / 10, 1]]]
            = Inr \<lparr> protoken_indexes = p, aatype_indexes = Some a \<rparr>
         \<and> length p = length [[[9 / 10, 1 / 10, 1 :: real]]]
         \<and> length a = length [[[9 / 10, 1 / 10, 1 :: real]]]
         \<and> (\<forall>b < length [[[9 / 10, 1 / 10, 1 :: real]]].
                length (p ! b) = length ([[[9 / 10, 1 / 10, 1 :: real]]] ! b)
              \<and> length (a ! b) = length ([[[9 / 10, 1 / 10, 1 :: real]]] ! b)
              \<and> (\<forall>i < length ([[[9 / 10, 1 / 10, 1 :: real]]] ! b).
                    is_nearest protoken_emb_distance_fn
                      (entries \<lparr> emb_dim = 2, entries = [[1, 0], [-1, 0]] \<rparr>)
                      (take (emb_dim \<lparr> emb_dim = 2, entries = [[1, 0], [-1, 0]] \<rparr>)
                         ([[[9 / 10, 1 / 10, 1]]] ! b ! i)) (p ! b ! i)
                  \<and> is_nearest aatype_emb_distance_fn
                      (entries \<lparr> emb_dim = 1, entries = [[0], [1]] \<rparr>)
                      (drop (emb_dim \<lparr> emb_dim = 2, entries = [[1, 0], [-1, 0]] \<rparr>)
                         ([[[9 / 10, 1 / 10, 1]]] ! b ! i)) (a ! b ! i)))"
  by (rule index_from_embedding_nearest) (simp_all add: wf_table_def)

text \<open>
  C3: the normalisation inside \<^verbatim>\<open>protoken_emb_distance_fn\<close> divides by
  \<open>norm x + 1e-6\<close>, which is strictly positive for every \<open>x\<close>, the all-zero vector
  included. So the division-by-zero branch is never taken: the function never yields a
  non-finite value, it returns a number whenever the two shapes broadcast, and on the
  all-zero vector it returns 0.
\<close>

theorem protoken_distance_never_divides_by_zero:
  "0 < norm_last x + eps
   \<and> normalize_eps x \<noteq> Inl NonFinite
   \<and> protoken_emb_distance_fn x y \<noteq> Inl NonFinite
   \<and> (length x = length y \<or> length x = 1 \<or> length y = 1 \<longrightarrow>
        (\<exists>d. protoken_emb_distance_fn x y = Inr d))
   \<and> (length y = n \<longrightarrow> protoken_emb_distance_fn (replicate n 0) y = Inr 0)"
proof (intro conjI impI)
  show "0 < norm_last x + eps" by (rule norm_eps_pos)
  show "normalize_eps x \<noteq> Inl NonFinite" by (simp add: normalize_eps_eq)
  let ?x' = "map (\<lambda>a. a / (norm_last x + eps)) x"
  let ?y' = "map (\<lambda>b. b / (norm_last y + eps)) y"
  have eq: "protoken_emb_distance_fn x y = bind_err (bcast fmul ?x' ?y') (\<lambda>p. Inr (- sum_list p))"
    by (simp add: protoken_emb_distance_fn_def normalize_eps_eq bind_err_def)
  have cases: "(\<exists>zs. bcast fmul ?x' ?y' = Inr zs) \<or> (bcast fmul ?x' ?y' = Inl ShapeError
      \<and> length ?x' \<noteq> length ?y' \<and> length ?x' \<noteq> 1 \<and> length ?y' \<noteq> 1)"
    by (rule bcast_total_cases) (simp add: fmul_def)
  from eq cases show "protoken_emb_distance_fn x y \<noteq> Inl NonFinite"
    by (auto simp: bind_err_def)
  {
    assume "length x = length y \<or> length x = 1 \<or> length y = 1"
    with eq cases show "\<exists>d. protoken_emb_distance_fn x y = Inr d"
      by (auto simp: bind_err_def)
  }
  {
    assume len: "length y = n"
    have "sum_list (map2 (*) (replicate n 0) (map (\<lambda>b. b / (norm_last y + eps)) y)) = 0"
      using sum_list_mult_zeros [of "map (\<lambda>b. b / (norm_last y + eps)) y"] len by simp
    then show "protoken_emb_distance_fn (replicate n 0) y = Inr 0"
      using len by (simp add: protoken_emb_distance_fn_eq)
  }
qed

theorem protoken_distance_never_divides_by_zero_witness:
  "0 < norm_last [0, 0] + eps
   \<and> protoken_emb_distance_fn [0, 0] [1, 0] \<noteq> Inl NonFinite
   \<and> (\<exists>d. protoken_emb_distance_fn [0, 0] [1, 0] = Inr d)
   \<and> protoken_emb_distance_fn (replicate 2 0) [1, 0] = Inr 0"
  using protoken_distance_never_divides_by_zero [of "[0, 0]" "[1, 0]" 2]
  by (simp add: numeral_2_eq_2)

text \<open>
  C4: with the codebook of the two 2-dimensional entries \<open>[1,0]\<close> and \<open>[-1,0]\<close>, the
  arg-min over \<^verbatim>\<open>protoken_emb_distance_fn\<close> maps \<open>z = [0.9, 0.1]\<close> to code 0 and
  \<open>z = [-0.9, -0.1]\<close> to code 1, position by position in \<^verbatim>\<open>index_from_embedding\<close>.
\<close>

theorem codebook2_scenario:
  "nearest_index protoken_emb_distance_fn (entries codebook2) [9 / 10, 1 / 10] = Inr 0
   \<and> nearest_index protoken_emb_distance_fn (entries codebook2) [- 9 / 10, - 1 / 10] = Inr 1
   \<and> index_from_embedding False codebook2 aatype_emb
         [[[9 / 10, 1 / 10], [- 9 / 10, - 1 / 10]]]
       = Inr \<lparr> protoken_indexes = [[0, 1]], aatype_indexes = None \<rparr>"
  using nearest_codebook2 [of "9 / 10" "1 / 10"] nearest_codebook2 [of "9 / 10" "- 1 / 10"]
  by (simp add: index_from_embedding_def bind_err_def codebook2_def)


text \<open>
  C5: \<^verbatim>\<open>index_from_embedding\<close> does not mix positions. For two batches of one shape
  that agree at every unmasked position and differ arbitrarily at the padding positions,
  both calls return, with the same ProToken index and the same amino-acid index at every
  unmasked position.
\<close>

theorem index_from_embedding_mask_independent:
  assumes "wf_table protoken_emb" and "entries protoken_emb \<noteq> []"
    and "wf_table aatype_emb" and "entries aatype_emb \<noteq> []"
    and "\<forall>row \<in> set x. \<forall>v \<in> set row. length v = emb_dim protoken_emb + emb_dim aatype_emb"
    and "\<forall>row \<in> set x'. \<forall>v \<in> set row. length v = emb_dim protoken_emb + emb_dim aatype_emb"
    and "length x' = length x" and "\<forall>b < length x. length (x' ! b) = length (x ! b)"
    and "\<forall>b < length x. \<forall>i < length (x ! b). seq_mask ! b ! i \<longrightarrow> x' ! b ! i = x ! b ! i"
  shows "\<exists>p a p' a'.
           index_from_embedding True protoken_emb aatype_emb x
             = Inr \<lparr> protoken_indexes = p, aatype_indexes = Some a \<rparr>
         \<and> index_from_embedding True protoken_emb aatype_emb x'
             = Inr \<lparr> protoken_indexes = p', aatype_indexes = Some a' \<rparr>
         \<and> (\<forall>b < length x. \<forall>i < length (x ! b). seq_mask ! b ! i \<longrightarrow>
               p' ! b ! i = p ! b ! i \<and> a' ! b ! i = a ! b ! i)"
proof -
  from index_from_embedding_total [OF assms(1-5)] obtain p a where
    r: "index_from_embedding True protoken_emb aatype_emb x
           = Inr \<lparr> protoken_indexes = p, aatype_indexes = Some a \<rparr>"
    by blast
  from index_from_embedding_total [OF assms(1-4) assms(6)] obtain p' a' where
    r': "index_from_embedding True protoken_emb aatype_emb x'
           = Inr \<lparr> protoken_indexes = p', aatype_indexes = Some a' \<rparr>"
    by blast
  note pm = index_from_embedding_Inr(1) [OF r] and am = index_from_embedding_Inr(2) [OF r]
  note pm' = index_from_embedding_Inr(1) [OF r'] and am' = index_from_embedding_Inr(2) [OF r']
  have "\<forall>b < length x. \<forall>i < length (x ! b). seq_mask ! b ! i \<longrightarrow>
               p' ! b ! i = p ! b ! i \<and> a' ! b ! i = a ! b ! i"
  proof (intro allI impI)
    fix b i assume b: "b < length x" and i: "i < length (x ! b)" and m: "seq_mask ! b ! i"
    from b assms(7) have b': "b < length x'" by simp
    from b i assms(8) have i': "i < length (x' ! b)" by simp
    from b i m assms(9) have same: "x' ! b ! i = x ! b ! i" by simp
    from mapM_mapM_nth [OF pm b i] mapM_mapM_nth [OF pm' b' i'] same
    have "p' ! b ! i = p ! b ! i" by simp
    moreover from mapM_mapM_nth [OF am b i] mapM_mapM_nth [OF am' b' i'] same
    have "a' ! b ! i = a ! b ! i" by simp
    ultimately show "p' ! b ! i = p ! b ! i \<and> a' ! b ! i = a ! b ! i" by simp
  qed
  with r r' show ?thesis by blast
qed

theorem index_from_embedding_mask_independent_witness:
  "\<exists>p a p' a'.
       index_from_embedding True \<lparr> emb_dim = 2, entries = [[1, 0], [-1, 0]] \<rparr>
           \<lparr> emb_dim = 1, entries = [[0], [1]] \<rparr> [[[9 / 10, 1 / 10, 1], [5, 5, 5]]]
         = Inr \<lparr> protoken_indexes = p, aatype_indexes = Some a \<rparr>
     \<and> index_from_embedding True \<lparr> emb_dim = 2, entries = [[1, 0], [-1, 0]] \<rparr>
           \<lparr> emb_dim = 1, entries = [[0], [1]] \<rparr> [[[9 / 10, 1 / 10, 1], [- 7, 0, 0]]]
         = Inr \<lparr> protoken_indexes = p', aatype_indexes = Some a' \<rparr>
     \<and> (\<forall>b < length [[[9 / 10, 1 / 10, 1 :: real], [5, 5, 5]]].
          \<forall>i < length ([[[9 / 10, 1 / 10, 1 :: real], [5, 5, 5]]] ! b).
            [[True, False]] ! b ! i \<longrightarrow> p' ! b ! i = p ! b ! i \<and> a' ! b ! i = a ! b ! i)"
  by (rule index_from_embedding_mask_independent)
    (simp_all add: wf_table_def less_Suc_eq nth_Cons')

text \<open>
  C7, as the code has it: for indices in \<open>0 \<dots> 19\<close> the table lookup of
  \<^verbatim>\<open>aatype_index_to_resname\<close> is in range and the result is the string of the residue
  symbols at those indices; the table has 20 entries, so an index from 20 on (the unknown
  and gap types 20 and 21 among them) raises IndexError.
\<close>

theorem aatype_index_to_resname_canonical:
  "((\<forall>i \<in> set aatype_index. 0 \<le> i \<and> i < 20) \<longrightarrow>
      aatype_index_to_resname aatype_index = Inr (map (\<lambda>i. restypes ! nat i) aatype_index))
   \<and> ((\<exists>i \<in> set aatype_index. 20 \<le> i) \<longrightarrow>
      aatype_index_to_resname aatype_index = Inl IndexError)"
proof (intro conjI impI)
  assume "\<forall>i \<in> set aatype_index. 0 \<le> i \<and> i < 20"
  then have "\<And>i. i \<in> set aatype_index \<Longrightarrow> py_getitem restypes i = Inr (restypes ! nat i)"
    by (simp add: py_getitem_in_range length_restypes)
  then show "aatype_index_to_resname aatype_index
      = Inr (map (\<lambda>i. restypes ! nat i) aatype_index)"
    unfolding aatype_index_to_resname_def by (rule mapM_all_Inr)
next
  assume "\<exists>i \<in> set aatype_index. 20 \<le> i"
  then obtain i where i: "i \<in> set aatype_index" and "20 \<le> i" by blast
  then have "py_getitem restypes i = Inl IndexError"
    by (simp add: py_getitem_too_large length_restypes)
  with i show "aatype_index_to_resname aatype_index = Inl IndexError"
    unfolding aatype_index_to_resname_def
    by (rule mapM_Inl_uniform) (simp add: py_getitem_def split: if_splits)
qed

theorem aatype_index_to_resname_canonical_witness:
  "aatype_index_to_resname [7, 0, 19] = Inr ''GAV''
   \<and> aatype_index_to_resname [7, 21] = Inl IndexError"
  using aatype_index_to_resname_canonical [of "[7, 0, 19]"]
    aatype_index_to_resname_canonical [of "[7, 21]"]
  by (simp add: restypes_def)

text \<open>
  C7, as the claim states it, fails: the unknown type 20 is inside the 22-way range
  \<open>0 \<dots> 21\<close>, and the lookup raises IndexError instead of returning a symbol.
\<close>

theorem aatype_index_to_resname_unknown_counterexample:
  "aatype_index_to_resname [20] = Inl IndexError"
  by (simp add: aatype_index_to_resname_def py_getitem_def length_restypes)

text \<open>
  C8: the configuration instantiates the structure-module block three times, with
  \<open>num_layer\<close> 8, 1 and 8 and \<open>stop_grad_ipa\<close> True, False and True for
  \<^verbatim>\<open>extended_structure_module\<close>, \<^verbatim>\<open>frame_initializer\<close> and
  \<^verbatim>\<open>predicted_lddt.fold_iteration\<close>.
\<close>

theorem structure_module_layer_counts:
  "num_layer extended_structure_module = 8
   \<and> num_layer frame_initializer = 1
   \<and> num_layer (fold_iteration predicted_lddt) = 8
   \<and> stop_grad_ipa extended_structure_module = True
   \<and> stop_grad_ipa frame_initializer = False
   \<and> stop_grad_ipa (fold_iteration predicted_lddt) = True"
  by (simp add: extended_structure_module_def frame_initializer_def predicted_lddt_def)

text \<open>
  C9: \<^verbatim>\<open>make_repaint_info\<close> returns (on non-empty tables and index arrays of one
  length), and for every position \<open>i\<close> that is in neither \<^verbatim>\<open>aatype_context_ids\<close> nor
  \<^verbatim>\<open>protoken_context_ids\<close> row \<open>i\<close> of the mask is entirely False, so the blending
  step leaves row \<open>i\<close> of the embedding unchanged. The mask is True exactly at the
  ProToken coordinates of the positions in \<^verbatim>\<open>protoken_context_ids\<close> and at the
  amino-acid coordinates of the positions in \<^verbatim>\<open>aatype_context_ids\<close>, and the blended
  embedding takes the context's value where the mask is True and keeps its own value
  everywhere else.
\<close>

theorem repaint_touches_only_context:
  assumes "entries protoken_emb \<noteq> []" and "entries aatype_emb \<noteq> []"
    and "length aatypes = length protokens"
    and "length x = length protokens"
    and "\<forall>row \<in> set x. length row = emb_dim protoken_emb + emb_dim aatype_emb"
    and "length repaint_context_t = length protokens"
    and "\<forall>row \<in> set repaint_context_t. length row = emb_dim protoken_emb + emb_dim aatype_emb"
  shows "\<exists>repaint_context repaint_mask x'.
      make_repaint_info protoken_emb aatype_emb aatypes protokens aatype_context_ids
          protoken_context_ids = Inr (repaint_context, repaint_mask)
    \<and> repaint_blend (astype_float32 repaint_mask) repaint_context_t x = Inr x'
    \<and> length repaint_mask = length protokens \<and> length x' = length protokens
    \<and> (\<forall>i < length protokens.
          length (repaint_mask ! i) = emb_dim protoken_emb + emb_dim aatype_emb
        \<and> length (x' ! i) = emb_dim protoken_emb + emb_dim aatype_emb
        \<and> (int i \<notin> set aatype_context_ids \<and> int i \<notin> set protoken_context_ids \<longrightarrow>
             repaint_mask ! i = replicate (emb_dim protoken_emb + emb_dim aatype_emb) False
           \<and> x' ! i = x ! i)
        \<and> (\<forall>j < emb_dim protoken_emb + emb_dim aatype_emb.
             (repaint_mask ! i ! j \<longleftrightarrow>
                  (j < emb_dim protoken_emb \<and> int i \<in> set protoken_context_ids)
                \<or> (emb_dim protoken_emb \<le> j \<and> int i \<in> set aatype_context_ids))
           \<and> x' ! i ! j = (if repaint_mask ! i ! j then repaint_context_t ! i ! j
                            else x ! i ! j)))"
proof -
  let ?P = "emb_dim protoken_emb" and ?A = "emb_dim aatype_emb"
  let ?row = "\<lambda>i. map2 (\<or>)
               (if int i \<in> set aatype_context_ids
                then replicate ?P False @ replicate ?A True else replicate (?P + ?A) False)
               (if int i \<in> set protoken_context_ids
                then replicate ?P True @ replicate ?A False else replicate (?P + ?A) False)"
  let ?mask = "map ?row [0..<length protokens]"
  from make_repaint_info_Inr [OF assms(1-3)] obtain repaint_context where
    mk: "make_repaint_info protoken_emb aatype_emb aatypes protokens aatype_context_ids
          protoken_context_ids = Inr (repaint_context, ?mask)"
    by blast
  have lm: "length ?mask = length protokens" by simp
  have row: "\<And>i. i < length protokens \<Longrightarrow> ?mask ! i = ?row i" by simp
  have rl: "\<And>i. length (?row i) = ?P + ?A" by (rule mask_row_length)
  have sx: "list_all2 (\<lambda>a b. length a = length b) ?mask x"
    unfolding list_all2_conv_all_nth using assms(4,5) rl by (simp del: map2_map_map)
  have sc: "list_all2 (\<lambda>a b. length a = length b) ?mask repaint_context_t"
    unfolding list_all2_conv_all_nth using assms(6,7) rl by (simp del: map2_map_map)
  from repaint_blend_nth [OF sc sx] obtain x' where
    bl: "repaint_blend (astype_float32 ?mask) repaint_context_t x = Inr x'"
    and lx': "length x' = length x"
    and el: "\<And>i. i < length x \<Longrightarrow> length (x' ! i) = length (x ! i)"
    and ev: "\<And>i j. i < length x \<Longrightarrow> j < length (x ! i) \<Longrightarrow>
        x' ! i ! j = (if ?mask ! i ! j then repaint_context_t ! i ! j else x ! i ! j)"
    by blast
  have xl: "\<And>i. i < length protokens \<Longrightarrow> length (x ! i) = ?P + ?A"
    using assms(4,5) by simp
  have "\<forall>i < length protokens.
          length (?mask ! i) = ?P + ?A
        \<and> length (x' ! i) = ?P + ?A
        \<and> (int i \<notin> set aatype_context_ids \<and> int i \<notin> set protoken_context_ids \<longrightarrow>
             ?mask ! i = replicate (?P + ?A) False \<and> x' ! i = x ! i)
        \<and> (\<forall>j < ?P + ?A.
             (?mask ! i ! j \<longleftrightarrow>
                  (j < ?P \<and> int i \<in> set protoken_context_ids)
                \<or> (?P \<le> j \<and> int i \<in> set aatype_context_ids))
           \<and> x' ! i ! j = (if ?mask ! i ! j then repaint_context_t ! i ! j else x ! i ! j))"
  proof (intro allI impI)
    fix i assume i: "i < length protokens"
    then have ix: "i < length x" using assms(4) by simp
    have 1: "length (?mask ! i) = ?P + ?A" using row [OF i] rl by simp
    have 2: "length (x' ! i) = ?P + ?A" using el [OF ix] xl [OF i] by simp
    have 4: "\<forall>j < ?P + ?A.
             (?mask ! i ! j \<longleftrightarrow>
                  (j < ?P \<and> int i \<in> set protoken_context_ids)
                \<or> (?P \<le> j \<and> int i \<in> set aatype_context_ids))
           \<and> x' ! i ! j = (if ?mask ! i ! j then repaint_context_t ! i ! j else x ! i ! j)"
    proof (intro allI impI conjI)
      fix j assume j: "j < ?P + ?A"
      show "?mask ! i ! j \<longleftrightarrow>
                  (j < ?P \<and> int i \<in> set protoken_context_ids)
                \<or> (?P \<le> j \<and> int i \<in> set aatype_context_ids)"
        unfolding row [OF i] using j by (rule mask_row_nth)
      from j xl [OF i] have "j < length (x ! i)" by simp
      with ix show "x' ! i ! j = (if ?mask ! i ! j then repaint_context_t ! i ! j else x ! i ! j)"
        by (rule ev)
    qed
    have 3: "?mask ! i = replicate (?P + ?A) False \<and> x' ! i = x ! i"
      if free: "int i \<notin> set aatype_context_ids \<and> int i \<notin> set protoken_context_ids"
    proof
      show m: "?mask ! i = replicate (?P + ?A) False"
        unfolding row [OF i] using free by (simp add: mask_row_all_False del: map2_map_map)
      show "x' ! i = x ! i"
      proof (rule nth_equalityI)
        show "length (x' ! i) = length (x ! i)" using ix by (rule el)
      next
        fix j assume "j < length (x' ! i)"
        then have j: "j < ?P + ?A" using 2 by simp
        with 4 have "x' ! i ! j = (if ?mask ! i ! j then repaint_context_t ! i ! j else x ! i ! j)"
          by blast
        moreover from m j have "\<not> ?mask ! i ! j" by simp
        ultimately show "x' ! i ! j = x ! i ! j" by simp
      qed
    qed
    from 1 2 3 4 show "length (?mask ! i) = ?P + ?A
        \<and> length (x' ! i) = ?P + ?A
        \<and> (int i \<notin> set aatype_context_ids \<and> int i \<notin> set protoken_context_ids \<longrightarrow>
             ?mask ! i = replicate (?P + ?A) False \<and> x' ! i = x ! i)
        \<and> (\<forall>j < ?P + ?A.
             (?mask ! i ! j \<longleftrightarrow>
                  (j < ?P \<and> int i \<in> set protoken_context_ids)
                \<or> (?P \<le> j \<and> int i \<in> set aatype_context_ids))
           \<and> x' ! i ! j = (if ?mask ! i ! j then repaint_context_t ! i ! j else x ! i ! j))"
      by blast
  qed
  note body = this
  have lx'': "length x' = length protokens" using lx' assms(4) by simp
  show ?thesis
    by (intro exI conjI) (rule mk, rule bl, rule lm, rule lx'', rule body)
qed

theorem repaint_touches_only_context_witness:
  "\<exists>repaint_context repaint_mask x'.
      make_repaint_info \<lparr> emb_dim = 2, entries = [[1, 0], [-1, 0]] \<rparr>
          \<lparr> emb_dim = 1, entries = [[0], [1]] \<rparr> [0, 1] [1, 0] [1] [1]
        = Inr (repaint_context, repaint_mask)
    \<and> repaint_blend (astype_float32 repaint_mask) [[0, 0, 0], [1, 1, 1]] [[5, 6, 7], [8, 9, 10]]
        = Inr x'
    \<and> repaint_mask ! 0 = [False, False, False]
    \<and> x' ! 0 = [5, 6, 7]"
  using repaint_touches_only_context [where protoken_emb = "\<lparr> emb_dim = 2, entries = [[1, 0], [-1, 0]] \<rparr>"
      and aatype_emb = "\<lparr> emb_dim = 1, entries = [[0], [1]] \<rparr>"
      and aatypes = "[0, 1]" and protokens = "[1, 0]"
      and aatype_context_ids = "[1]" and protoken_context_ids = "[1]"
      and x = "[[5, 6, 7], [8, 9, 10]]" and repaint_context_t = "[[0, 0, 0], [1, 1, 1]]"]
  by (simp add: numeral_3_eq_3) fastforce

text \<open>
  C10: the residue-name conversions are mutually inverse on the 20 canonical amino
  acids. Converting an index array with all entries in \<open>[0, 20)\<close> to names and back
  returns the array, and converting a string over the 20 residue symbols to indices and
  back returns the string; neither direction raises.
\<close>

theorem resname_aatype_index_roundtrip:
  "((\<forall>i \<in> set indexes. 0 \<le> i \<and> i < 20) \<longrightarrow>
      bind_err (aatype_index_to_resname indexes) resname_to_aatype_index = Inr indexes)
   \<and> ((\<forall>a \<in> set s. a \<in> set restypes) \<longrightarrow>
      bind_err (resname_to_aatype_index s) aatype_index_to_resname = Inr s)"
proof (intro conjI impI)
  assume rng: "\<forall>i \<in> set indexes. 0 \<le> i \<and> i < 20"
  have "\<And>i. i \<in> set indexes \<Longrightarrow> py_getitem restypes i = Inr (restypes ! nat i)"
    using rng by (simp add: py_getitem_in_range length_restypes)
  then have fwd: "aatype_index_to_resname indexes = Inr (map (\<lambda>i. restypes ! nat i) indexes)"
    unfolding aatype_index_to_resname_def by (rule mapM_all_Inr)
  have bwd: "resname_to_aatype_index (map (\<lambda>i. restypes ! nat i) indexes) = Inr indexes"
    using rng
  proof (induction indexes)
    case Nil
    then show ?case by (simp add: resname_to_aatype_index_def)
  next
    case (Cons i indexes)
    then have "nat i < length restypes" and "0 \<le> i"
      by (auto simp: length_restypes)
    then have "py_index restypes (restypes ! nat i) = Inr (nat i)"
      using distinct_restypes by (simp add: py_index_nth)
    with Cons \<open>0 \<le> i\<close> show ?case
      by (simp add: resname_to_aatype_index_def)
  qed
  from fwd bwd show "bind_err (aatype_index_to_resname indexes) resname_to_aatype_index
      = Inr indexes"
    by (simp add: bind_err_def)
next
  assume mem: "\<forall>a \<in> set s. a \<in> set restypes"
  then show "bind_err (resname_to_aatype_index s) aatype_index_to_resname = Inr s"
  proof (induction s)
    case Nil
    then show ?case
      by (simp add: bind_err_def resname_to_aatype_index_def aatype_index_to_resname_def)
  next
    case (Cons a s)
    then obtain n where n: "py_index restypes a = Inr n" "n < length restypes"
        "restypes ! n = a"
      using py_index_mem [of a restypes] by auto
    from Cons obtain ixs where ixs: "resname_to_aatype_index s = Inr ixs"
        "aatype_index_to_resname ixs = Inr s"
      by (auto simp: bind_err_def split: sum.splits)
    from n have "py_getitem restypes (int n) = Inr a"
      by (simp add: py_getitem_in_range)
    with n ixs show ?case
      by (simp add: bind_err_def resname_to_aatype_index_def aatype_index_to_resname_def)
  qed
qed

theorem resname_aatype_index_roundtrip_witness:
  "bind_err (aatype_index_to_resname [0, 19, 7]) resname_to_aatype_index = Inr [0, 19, 7]
   \<and> bind_err (resname_to_aatype_index ''AVG'') aatype_index_to_resname = Inr ''AVG''"
  using resname_aatype_index_roundtrip [of "[0, 19, 7]" "''AVG''"]
  by (simp add: restypes_def)

end
